theory Spec2Isabelle
  imports
    Complex_Main
    "HOL-Library.Char_ord"
    "HOL-Library.List_Lexorder"
    "HOL-Library.Product_Lexorder"
    "HOL-Library.Sublist"
begin

section \<open>Configuration constants of \<open>transaction_matcher.py\<close>\<close>

text \<open>
  Amounts are Python floats in the source. They are modelled as real numbers: the
  subtraction and the comparisons of the scorer are taken exactly, and the special
  float values (NaN, infinities) are left out. The source computes the difference in
  binary floating point, so two decimal amounts whose difference lies exactly on a
  threshold (0.01, 1.00 or 3.00) may fall on either side of it there; the examples
  below stay away from the thresholds. Day differences and scores are Python ints,
  modelled as \<open>int\<close>.
\<close>

definition DATE_MATCHING_WINDOW_DAYS :: int where
  "DATE_MATCHING_WINDOW_DAYS = 30"

definition AMOUNT_MATCHING_TOLERANCE :: real where
  "AMOUNT_MATCHING_TOLERANCE = 3.0"

definition CONFIDENCE_THRESHOLD_HIGH :: int where
  "CONFIDENCE_THRESHOLD_HIGH = 60"

definition CONFIDENCE_THRESHOLD_LOW :: int where
  "CONFIDENCE_THRESHOLD_LOW = 40"


section \<open>The confidence scorer\<close>

text \<open>
  \<open>calculate_confidence_score\<close>: the amount branch either yields the points of the
  amount component or leaves the function with 0 (the \<open>None\<close> case below); after it
  come the date component, the same-day bonus and the cap at 100.
\<close>

definition calculate_confidence_score :: "real \<Rightarrow> real \<Rightarrow> int \<Rightarrow> int" where
  "calculate_confidence_score trans_amount order_total date_diff_days =
     (let amount_diff = \<bar>trans_amount - order_total\<bar>;
          amount_points =
            (if amount_diff < 0.01 then Some (0 + 50)
             else if amount_diff \<le> 1.0 then Some (0 + 30)
             else if amount_diff \<le> AMOUNT_MATCHING_TOLERANCE then Some (0 + 20)
             else None)
      in case amount_points of
           None \<Rightarrow> 0
         | Some score \<Rightarrow>
             (let date_score = max 0 (20 - (date_diff_days * 3));
                  score = score + date_score;
                  score = (if date_diff_days = 0 then score + 10 else score)
              in min score 100))"

section \<open>Strings and parsing\<close>

text \<open>
  Strings are byte lists; the models of \<open>str.strip\<close> and \<open>str.upper\<close> cover ASCII
  text. \<open>py_isspace\<close> lists the ASCII characters that \<open>str.strip()\<close> removes.
\<close>

definition py_isspace :: "char \<Rightarrow> bool" where
  "py_isspace c \<longleftrightarrow>
     c \<in> set [CHR 0x09, CHR 0x0A, CHR 0x0B, CHR 0x0C, CHR 0x0D,
               CHR 0x1C, CHR 0x1D, CHR 0x1E, CHR 0x1F, CHR 0x20]"

definition py_strip :: "string \<Rightarrow> string" where
  "py_strip s = rev (dropWhile py_isspace (rev (dropWhile py_isspace s)))"



text \<open>\<open>py_in p s\<close> is Python's \<open>p in s\<close> on strings: \<open>p\<close> occurs in \<open>s\<close> as a contiguous run.\<close>

fun py_in :: "string \<Rightarrow> string \<Rightarrow> bool" where
  "py_in p [] = (p = [])"
| "py_in p (c # cs) = (prefix p (c # cs) \<or> py_in p cs)"

text \<open>\<open>py_remove c s\<close> is \<open>s.replace(c, '')\<close> for a one-character string \<open>c\<close>.\<close>

definition py_remove :: "char \<Rightarrow> string \<Rightarrow> string" where
  "py_remove c s = filter (\<lambda>x. x \<noteq> c) s"

text \<open>
  The two library calls of the parsers are parameters of the model. \<open>py_float s\<close> stands
  for \<open>float(s)\<close> and \<open>strptime s fmt\<close> for \<open>datetime.strptime(s, fmt)\<close> followed by the
  normalisation to midnight; \<open>None\<close> means that the call raises \<open>ValueError\<close>, the
  only exception either raises on string arguments. A date normalised to midnight is
  its day number, so that \<open>(d1 - d2).days\<close> is the difference of two integers.
\<close>

type_synonym float_parser = "string \<Rightarrow> real option"
type_synonym date_parser = "string \<Rightarrow> string \<Rightarrow> int option"

text \<open>
  \<open>utils.parse_amount\<close>, in two parts. \<open>amount_sign_and_digits\<close> is the string
  preparation: strip, detect the accounting notation \<open>(...)\<close> or a leading minus, drop
  the currency symbol and the commas, strip again.
\<close>

definition amount_sign_and_digits :: "string \<Rightarrow> bool \<times> string" where
  "amount_sign_and_digits v =
     (let amount_str = py_strip v;
          (is_negative, amount_str) =
            (if prefix ''('' amount_str \<and> suffix '')'' amount_str
               then (True, butlast (tl amount_str))
             else if prefix ''-'' amount_str then (True, tl amount_str)
             else (False, amount_str));
          amount_str = py_strip (py_remove (CHR '','') (py_remove (CHR ''$'') amount_str))
      in (is_negative, amount_str))"

text \<open>
  The argument \<open>None\<close> is Python's \<open>None\<close>; a \<open>ValueError\<close> of \<open>float\<close> is caught and
  gives \<open>0.0\<close>.
\<close>

definition parse_amount :: "float_parser \<Rightarrow> string option \<Rightarrow> real" where
  "parse_amount py_float amount_value =
     (case amount_value of
        None \<Rightarrow> 0
      | Some v \<Rightarrow>
          (let (is_negative, amount_str) = amount_sign_and_digits v
           in if amount_str = [] then 0
              else (case py_float amount_str of
                      Some amount \<Rightarrow> (if is_negative then - amount else amount)
                    | None \<Rightarrow> 0)))"

definition parse_date_formats :: "string list" where
  "parse_date_formats = [''%Y-%m-%d'', ''%m/%d/%Y'', ''%m-%d-%Y'', ''%Y/%m/%d'', ''%d/%m/%Y'']"

text \<open>The loop over the formats: the first format that parses wins.\<close>

fun try_formats :: "date_parser \<Rightarrow> string \<Rightarrow> string list \<Rightarrow> int option" where
  "try_formats strptime s [] = None"
| "try_formats strptime s (fmt # fmts) =
     (case strptime s fmt of
        Some dt \<Rightarrow> Some dt
      | None \<Rightarrow> try_formats strptime s fmts)"

text \<open>\<open>utils.parse_date\<close>.\<close>

definition parse_date :: "date_parser \<Rightarrow> string \<Rightarrow> int option" where
  "parse_date strptime date_str =
     (if date_str = [] then None
      else try_formats strptime (py_strip date_str) parse_date_formats)"


section \<open>Data model\<close>

text \<open>
  A ledger row carries the five required columns; a loaded transaction adds the row
  number and the two deduplication fields (\<open>_row_number\<close>, \<open>_has_hint\<close>, \<open>_date_added\<close>
  in the source), an output row adds the match columns.
\<close>

record ledger_columns =
  Date :: string
  Description :: string
  Category :: string
  Amount :: string
  Account :: string

record transaction = ledger_columns +
  row_number :: int
  has_hint :: bool
  date_added :: string

text \<open>
  A record of the Parsed Orders sheet as \<open>load_parsed_orders\<close> builds it
  (\<open>order_processed_at\<close> is its \<open>processed_at\<close> column, \<open>parsed_date\<close> its
  \<open>_parsed_date\<close>).
\<close>

record parsed_order =
  email_id :: string
  email_date :: string
  email_type :: string
  order_number :: string
  shipment_total :: real
  item_name :: string
  item_price :: real
  item_qty :: int
  parse_status :: string
  order_processed_at :: string
  parsed_date :: "int option"

text \<open>A candidate is the tuple \<open>(score, row_num, email_id, items)\<close> of \<open>all_matches\<close>.\<close>

type_synonym candidate = "int \<times> int \<times> string \<times> parsed_order list"

text \<open>A match result is the tuple \<open>(matched_items, confidence, status)\<close>.\<close>

type_synonym match_result = "parsed_order list option \<times> int \<times> string"

section \<open>Global batch matching\<close>

text \<open>
  The two indexes built at the start of \<open>match_all_transactions_optimally\<close>. A lookup
  in \<open>emails_by_type\<close> returns the records appended under that type, in input order;
  only records with a non-empty type and a non-empty id are indexed.
\<close>

definition emails_by_type :: "parsed_order list \<Rightarrow> string \<Rightarrow> parsed_order list" where
  "emails_by_type parsed_orders ty =
     filter (\<lambda>order. email_type order \<noteq> [] \<and> email_id order \<noteq> [] \<and> email_type order = ty)
       parsed_orders"

definition orders_by_email :: "parsed_order list \<Rightarrow> string \<Rightarrow> parsed_order list" where
  "orders_by_email parsed_orders eid =
     filter (\<lambda>order. email_id order \<noteq> [] \<and> email_id order = eid) parsed_orders"

text \<open>
  The inner loops of phase 1 for one transaction: the records of the eligible types,
  in order, with the set \<open>seen_emails\<close> and the candidates appended so far.
\<close>

fun scan_emails ::
  "parsed_order list \<Rightarrow> int \<Rightarrow> int \<Rightarrow> real \<Rightarrow> parsed_order list
   \<Rightarrow> string set \<times> candidate list \<Rightarrow> string set \<times> candidate list" where
  "scan_emails parsed_orders row_num trans_date trans_amount [] (seen_emails, acc) =
     (seen_emails, acc)"
| "scan_emails parsed_orders row_num trans_date trans_amount (order # rest) (seen_emails, acc) =
     (if email_id order \<in> seen_emails
        then scan_emails parsed_orders row_num trans_date trans_amount rest (seen_emails, acc)
      else
        (let seen_emails = insert (email_id order) seen_emails in
         case parsed_date order of
           None \<Rightarrow> scan_emails parsed_orders row_num trans_date trans_amount rest (seen_emails, acc)
         | Some order_date \<Rightarrow>
             (let date_diff = \<bar>trans_date - order_date\<bar> in
              if date_diff > DATE_MATCHING_WINDOW_DAYS
                then scan_emails parsed_orders row_num trans_date trans_amount rest (seen_emails, acc)
              else
                (case orders_by_email parsed_orders (email_id order) of
                   [] \<Rightarrow> scan_emails parsed_orders row_num trans_date trans_amount rest
                          (seen_emails, acc)
                 | first_item # more_items \<Rightarrow>
                     (if shipment_total first_item = 0
                        then scan_emails parsed_orders row_num trans_date trans_amount rest
                               (seen_emails, acc)
                      else
                        (let score = calculate_confidence_score trans_amount
                                       (shipment_total first_item) date_diff
                         in if score > 0
                              then scan_emails parsed_orders row_num trans_date trans_amount rest
                                     (seen_emails,
                                      acc @ [(score, row_num, email_id order,
                                              first_item # more_items)])
                            else scan_emails parsed_orders row_num trans_date trans_amount rest
                                   (seen_emails, acc)))))))"

text \<open>The body of the phase 1 loop: the candidates one transaction appends.\<close>

definition trans_candidates ::
  "date_parser \<Rightarrow> float_parser \<Rightarrow> parsed_order list \<Rightarrow> transaction \<Rightarrow> candidate list" where
  "trans_candidates strptime py_float parsed_orders txn =
     (let row_num = row_number txn;
          trans_date = parse_date strptime (Date txn);
          trans_amount_raw = parse_amount py_float (Some (Amount txn));
          trans_amount = \<bar>trans_amount_raw\<bar>
      in case trans_date of
           None \<Rightarrow> []
         | Some trans_date \<Rightarrow>
             (if trans_amount = 0 then []
              else
                (let is_credit = trans_amount_raw > 0;
                     email_types = (if is_credit then [''return''] else [''shipment'', ''order''])
                 in snd (scan_emails parsed_orders row_num trans_date trans_amount
                           (concat (map (emails_by_type parsed_orders) email_types))
                           ({}, [])))))"

text \<open>Phase 1: \<open>all_matches\<close> before sorting, in discovery order.\<close>

definition score_all_matches ::
  "date_parser \<Rightarrow> float_parser \<Rightarrow> transaction list \<Rightarrow> parsed_order list \<Rightarrow> candidate list" where
  "score_all_matches strptime py_float transactions parsed_orders =
     concat (map (trans_candidates strptime py_float parsed_orders) transactions)"

text \<open>
  \<open>all_matches.sort(key=lambda x: x[0], reverse=True)\<close>: Python's sort is stable and
  with \<open>reverse=True\<close> it still keeps elements with equal keys in their original order,
  which is the stable ascending sort on the negated score.
\<close>

definition sort_by_score_desc :: "candidate list \<Rightarrow> candidate list" where
  "sort_by_score_desc all_matches = sort_key (\<lambda>c. - fst c) all_matches"

text \<open>
  Phase 2: the greedy walk, on the state \<open>(used_emails, used_transactions,
  match_results)\<close>.
\<close>

type_synonym assign_state = "string set \<times> int set \<times> (int \<rightharpoonup> match_result)"

fun assign_greedy :: "candidate list \<Rightarrow> assign_state \<Rightarrow> assign_state" where
  "assign_greedy [] st = st"
| "assign_greedy ((score, row_num, eid, items) # rest)
     (used_emails, used_transactions, match_results) =
     (if row_num \<in> used_transactions \<or> eid \<in> used_emails
        then assign_greedy rest (used_emails, used_transactions, match_results)
      else if score \<ge> CONFIDENCE_THRESHOLD_HIGH
        then assign_greedy rest
               (insert eid used_emails, insert row_num used_transactions,
                match_results(row_num \<mapsto> (Some items, score, ''matched'')))
      else if score \<ge> CONFIDENCE_THRESHOLD_LOW
        then assign_greedy rest
               (insert eid used_emails, insert row_num used_transactions,
                match_results(row_num \<mapsto> (Some items, score, ''low_confidence'')))
      else assign_greedy rest (used_emails, used_transactions, match_results))"

text \<open>Phase 3: every transaction without a result is marked unmatched.\<close>

fun mark_unmatched :: "transaction list \<Rightarrow> (int \<rightharpoonup> match_result) \<Rightarrow> (int \<rightharpoonup> match_result)" where
  "mark_unmatched [] match_results = match_results"
| "mark_unmatched (txn # rest) match_results =
     (let row_num = row_number txn in
      if match_results row_num = None
        then mark_unmatched rest (match_results(row_num \<mapsto> (None, 0, ''unmatched'')))
      else mark_unmatched rest match_results)"

definition match_all_transactions_optimally ::
  "date_parser \<Rightarrow> float_parser \<Rightarrow> transaction list \<Rightarrow> parsed_order list
   \<Rightarrow> (int \<rightharpoonup> match_result)" where
  "match_all_transactions_optimally strptime py_float transactions parsed_orders =
     (let all_matches = score_all_matches strptime py_float transactions parsed_orders;
          all_matches = sort_by_score_desc all_matches;
          (used_emails, used_transactions, match_results) =
            assign_greedy all_matches ({}, {}, Map.empty)
      in mark_unmatched transactions match_results)"

section \<open>Single-transaction matching\<close>


text \<open>
  A \<open>defaultdict(list)\<close> filled by appending is an association list from keys, in the
  order of their first insertion, to the values appended under each key.
\<close>

fun group_append :: "'k \<Rightarrow> 'v \<Rightarrow> ('k \<times> 'v list) list \<Rightarrow> ('k \<times> 'v list) list" where
  "group_append k v [] = [(k, [v])]"
| "group_append k v ((k', vs) # groups) =
     (if k' = k then (k', vs @ [v]) # groups else (k', vs) # group_append k v groups)"

definition group_by_key :: "('v \<Rightarrow> 'k) \<Rightarrow> 'v list \<Rightarrow> ('k \<times> 'v list) list" where
  "group_by_key key xs = foldl (\<lambda>groups x. group_append (key x) x groups) [] xs"





section \<open>Deduplication of ledger rows\<close>




section \<open>Known patterns and output rows\<close>







section \<open>Auxiliary notions for the statements\<close>

text \<open>The email ids that occur in the items of a match result.\<close>

definition result_emails :: "match_result \<Rightarrow> string set" where
  "result_emails res = (case fst res of None \<Rightarrow> {} | Some items \<Rightarrow> email_id ` set items)"

text \<open>
  A candidate is a scored shipment of the parsed orders: its score is positive, its
  items are all the records of its email, and the total read from the first of them is
  not zero.
\<close>

definition shipment_of :: "parsed_order list \<Rightarrow> candidate \<Rightarrow> bool" where
  "shipment_of parsed_orders c \<longleftrightarrow>
     (case c of (score, row_num, eid, items) \<Rightarrow>
        0 < score \<and> items = orders_by_email parsed_orders eid \<and> items \<noteq> []
        \<and> shipment_total (hd items) \<noteq> 0)"

text \<open>The status that phase 2 gives to a candidate it assigns.\<close>

definition status_of :: "int \<Rightarrow> string" where
  "status_of score =
     (if score \<ge> CONFIDENCE_THRESHOLD_HIGH then ''matched'' else ''low_confidence'')"

text \<open>
  The invariant of the greedy walk: the claimed transactions are the keys of the
  results, the emails of every result are claimed, and two results of different rows
  share no email.
\<close>

definition assign_inv :: "assign_state \<Rightarrow> bool" where
  "assign_inv st \<longleftrightarrow>
     (case st of (ue, ut, mr) \<Rightarrow>
        ut = dom mr
        \<and> (\<forall>r res. mr r = Some res \<longrightarrow> result_emails res \<subseteq> ue)
        \<and> (\<forall>r1 r2 res1 res2. r1 \<noteq> r2 \<and> mr r1 = Some res1 \<and> mr r2 = Some res2
              \<longrightarrow> result_emails res1 \<inter> result_emails res2 = {}))"



section \<open>A sample ledger and sample orders\<close>

text \<open>
  Inputs for the examples. \<open>sample_strptime\<close> and \<open>sample_float\<close> agree with
  \<open>datetime.strptime\<close> (as day ordinals) and \<open>float\<close> on the strings of the samples.
\<close>

definition sample_strptime :: date_parser where
  "sample_strptime s fmt =
     (if fmt = ''%Y-%m-%d''
        then map_of [(''2024-03-10'', 738955), (''2024-03-08'', 738953), (''2024-03-05'', 738950)] s
      else None)"

definition sample_float :: float_parser where
  "sample_float s =
     map_of [(''41.03'', 41.03), (''20.00'', 20), (''10.00'', 10), (''1.00'', 1)] s"

definition mk_txn :: "int \<Rightarrow> string \<Rightarrow> string \<Rightarrow> string \<Rightarrow> transaction" where
  "mk_txn r d descr a =
     \<lparr>Date = d, Description = descr, Category = [], Amount = a, Account = ''Chase Sapphire'',
      row_number = r, has_hint = False, date_added = []\<rparr>"

definition mk_order :: "string \<Rightarrow> string \<Rightarrow> real \<Rightarrow> int option \<Rightarrow> string \<Rightarrow> parsed_order" where
  "mk_order eid ty tot d name =
     \<lparr>email_id = eid, email_date = [], email_type = ty, order_number = ''111-0000000-0000000'',
      shipment_total = tot, item_name = name, item_price = 5, item_qty = 1,
      parse_status = ''success'', order_processed_at = [], parsed_date = d\<rparr>"

definition sample_transactions :: "transaction list" where
  "sample_transactions =
     [mk_txn 2 ''2024-03-10'' ''AMAZON MKTPL*AB12'' ''-41.03'',
      mk_txn 3 ''2024-03-10'' ''AMAZON MKTPL*CD34'' ''($41.03)'',
      mk_txn 4 ''soon'' ''AMAZON MKTPL*EF56'' ''-20.00'',
      mk_txn 5 ''2024-03-10'' ''Amazon Prime'' ''-10.00'']"

definition sample_orders :: "parsed_order list" where
  "sample_orders =
     [mk_order ''e1'' ''shipment'' 41.03 (Some 738953) ''USB cable'',
      mk_order ''e1'' ''shipment'' 41.03 (Some 738953) ''Batteries'',
      mk_order ''e3'' ''shipment'' 42.50 (Some 738955) ''Notebook'',
      mk_order ''e4'' ''shipment'' 12.50 (Some 738950) ''Pens'',
      mk_order ''e0'' ''shipment'' 0 (Some 738955) ''Gift card'']"







section \<open>The substring test\<close>

lemma py_in_sublist: "py_in p s \<longleftrightarrow> sublist p s"
  by (induction s) (auto simp: sublist_Cons_right)

section \<open>Properties of the scorer\<close>

lemma score_cutoff:
  "3 < \<bar>a - t\<bar> \<Longrightarrow> calculate_confidence_score a t d = 0"
  by (simp add: calculate_confidence_score_def AMOUNT_MATCHING_TOLERANCE_def Let_def)

lemma score_within:
  "\<bar>a - t\<bar> \<le> 3 \<Longrightarrow>
   calculate_confidence_score a t d =
     min ((if \<bar>a - t\<bar> < 0.01 then 50 else if \<bar>a - t\<bar> \<le> 1 then 30 else 20)
          + max 0 (20 - 3 * d) + (if d = 0 then 10 else 0)) 100"
  by (simp add: calculate_confidence_score_def AMOUNT_MATCHING_TOLERANCE_def Let_def
      mult.commute)


lemma score_le_100: "calculate_confidence_score a t d \<le> 100"
  by (cases "\<bar>a - t\<bar> \<le> 3") (simp_all add: score_within score_cutoff)











section \<open>Properties of the batch matcher\<close>

lemma shipment_of_iff:
  "shipment_of os (s, r, e, items) \<longleftrightarrow>
     0 < s \<and> items = orders_by_email os e \<and> items \<noteq> [] \<and> shipment_total (hd items) \<noteq> 0"
  by (simp add: shipment_of_def)

lemma orders_by_email_ids: "o' \<in> set (orders_by_email os e) \<Longrightarrow> email_id o' = e"
  by (simp add: orders_by_email_def)

lemma scan_emails_acc:
  "c \<in> set (snd (scan_emails os r td ta orders (seen, acc))) \<Longrightarrow>
     c \<in> set acc \<or> (fst (snd c) = r \<and> shipment_of os c)"
proof (induction orders arbitrary: seen acc)
  case Nil
  then show ?case by simp
next
  case (Cons order rest)
  from Cons.prems show ?case
    by (auto simp: Let_def shipment_of_def split: option.splits list.splits if_splits
        dest!: Cons.IH)
qed

lemma trans_candidates_ok:
  "c \<in> set (trans_candidates sp pf os t) \<Longrightarrow> fst (snd c) = row_number t \<and> shipment_of os c"
  by (auto simp: trans_candidates_def Let_def split: option.splits if_splits
      dest!: scan_emails_acc)

lemma score_all_matches_ok:
  "c \<in> set (score_all_matches sp pf ts os) \<Longrightarrow>
     fst (snd c) \<in> row_number ` set ts \<and> shipment_of os c"
  by (auto simp: score_all_matches_def dest: trans_candidates_ok)


lemma assign_greedy_skip:
  "row_num \<in> ut \<or> eid \<in> ue \<or> score < CONFIDENCE_THRESHOLD_LOW \<Longrightarrow>
   assign_greedy ((score, row_num, eid, items) # cs) (ue, ut, mr) = assign_greedy cs (ue, ut, mr)"
  by (auto simp: CONFIDENCE_THRESHOLD_HIGH_def CONFIDENCE_THRESHOLD_LOW_def)

lemma assign_greedy_claim:
  "row_num \<notin> ut \<Longrightarrow> eid \<notin> ue \<Longrightarrow> CONFIDENCE_THRESHOLD_LOW \<le> score \<Longrightarrow>
   assign_greedy ((score, row_num, eid, items) # cs) (ue, ut, mr) =
     assign_greedy cs (insert eid ue, insert row_num ut,
       mr(row_num \<mapsto> (Some items, score, status_of score)))"
  by (auto simp: status_of_def)

declare assign_greedy.simps(2) [simp del]


lemma assign_greedy_dom:
  "ut = dom mr \<Longrightarrow>
   fst (snd (assign_greedy cs (ue, ut, mr))) = dom (snd (snd (assign_greedy cs (ue, ut, mr))))"
proof (induction cs arbitrary: ue ut mr)
  case Nil
  then show ?case by simp
next
  case (Cons c cs)
  obtain score row_num eid items where c: "c = (score, row_num, eid, items)"
    by (cases c) auto
  show ?case
  proof (cases "row_num \<in> ut \<or> eid \<in> ue \<or> score < CONFIDENCE_THRESHOLD_LOW")
    case True
    then have "assign_greedy (c # cs) (ue, ut, mr) = assign_greedy cs (ue, ut, mr)"
      unfolding c by (rule assign_greedy_skip)
    then show ?thesis using Cons.IH [OF Cons.prems] by simp
  next
    case False
    then have step: "assign_greedy (c # cs) (ue, ut, mr) =
        assign_greedy cs (insert eid ue, insert row_num ut,
          mr(row_num \<mapsto> (Some items, score, status_of score)))"
      unfolding c by (simp add: assign_greedy_claim)
    have "insert row_num ut = dom (mr(row_num \<mapsto> (Some items, score, status_of score)))"
      using Cons.prems by simp
    from Cons.IH [OF this] show ?thesis
      unfolding step .
  qed
qed

lemma assign_greedy_from:
  "snd (snd (assign_greedy cs (ue, ut, mr))) r = Some res \<Longrightarrow>
     mr r = Some res
     \<or> (\<exists>score eid items. (score, r, eid, items) \<in> set cs
           \<and> CONFIDENCE_THRESHOLD_LOW \<le> score
           \<and> res = (Some items, score, status_of score))"
proof (induction cs arbitrary: ue ut mr)
  case Nil
  then show ?case by simp
next
  case (Cons c cs)
  obtain score row_num eid items where c: "c = (score, row_num, eid, items)"
    by (cases c) auto
  show ?case
  proof (cases "row_num \<in> ut \<or> eid \<in> ue \<or> score < CONFIDENCE_THRESHOLD_LOW")
    case True
    then have "assign_greedy (c # cs) (ue, ut, mr) = assign_greedy cs (ue, ut, mr)"
      unfolding c by (rule assign_greedy_skip)
    with Cons.prems Cons.IH [of ue ut mr] show ?thesis by auto
  next
    case False
    then have step: "assign_greedy (c # cs) (ue, ut, mr) =
        assign_greedy cs (insert eid ue, insert row_num ut,
          mr(row_num \<mapsto> (Some items, score, status_of score)))"
      unfolding c by (simp add: assign_greedy_claim)
    from Cons.prems Cons.IH [of "insert eid ue" "insert row_num ut"
        "mr(row_num \<mapsto> (Some items, score, status_of score))"]
    have "(mr(row_num \<mapsto> (Some items, score, status_of score))) r = Some res
      \<or> (\<exists>score eid items. (score, r, eid, items) \<in> set cs
           \<and> CONFIDENCE_THRESHOLD_LOW \<le> score
           \<and> res = (Some items, score, status_of score))"
      unfolding step by blast
    with False show ?thesis
      unfolding c by (cases "r = row_num") auto
  qed
qed

lemma mark_unmatched_apply:
  "mark_unmatched ts m r =
     (if m r = None \<and> r \<in> row_number ` set ts then Some (None, 0, ''unmatched'') else m r)"
  by (induction ts arbitrary: m) (auto simp: Let_def)

lemma assign_inv_step:
  assumes "assign_inv (ue, ut, mr)" and "r \<notin> ut" and "e \<notin> ue"
    and "email_id ` set items \<subseteq> {e}"
  shows "assign_inv (insert e ue, insert r ut, mr(r \<mapsto> (Some items, s, st)))"
  using assms unfolding assign_inv_def result_emails_def
  by (auto split: option.splits) blast+

lemma assign_greedy_inv:
  "assign_inv (ue, ut, mr) \<Longrightarrow>
   (\<forall>c \<in> set cs. email_id ` set (snd (snd (snd c))) \<subseteq> {fst (snd (snd c))})
     \<Longrightarrow> assign_inv (assign_greedy cs (ue, ut, mr))"
proof (induction cs arbitrary: ue ut mr)
  case Nil
  then show ?case by simp
next
  case (Cons c cs)
  obtain score row_num eid items where c: "c = (score, row_num, eid, items)"
    by (cases c) auto
  from Cons.prems have ids: "email_id ` set items \<subseteq> {eid}" and
    rest: "\<forall>c \<in> set cs. email_id ` set (snd (snd (snd c))) \<subseteq> {fst (snd (snd c))}"
    unfolding c by simp_all
  show ?case
  proof (cases "row_num \<in> ut \<or> eid \<in> ue \<or> score < CONFIDENCE_THRESHOLD_LOW")
    case True
    then have "assign_greedy (c # cs) (ue, ut, mr) = assign_greedy cs (ue, ut, mr)"
      unfolding c by (rule assign_greedy_skip)
    then show ?thesis using Cons.IH [OF Cons.prems(1) rest] by simp
  next
    case False
    then have step: "assign_greedy (c # cs) (ue, ut, mr) =
        assign_greedy cs (insert eid ue, insert row_num ut,
          mr(row_num \<mapsto> (Some items, score, status_of score)))"
      unfolding c by (simp add: assign_greedy_claim)
    from False have "assign_inv (insert eid ue, insert row_num ut,
        mr(row_num \<mapsto> (Some items, score, status_of score)))"
      using assign_inv_step [OF Cons.prems(1) _ _ ids] by blast
    from Cons.IH [OF this rest] show ?thesis
      unfolding step .
  qed
qed

lemma match_all_unfold:
  "match_all_transactions_optimally sp pf ts os =
     mark_unmatched ts (snd (snd (assign_greedy
       (sort_by_score_desc (score_all_matches sp pf ts os)) ({}, {}, Map.empty))))"
  by (simp add: match_all_transactions_optimally_def Let_def split: prod.splits)

lemma assign_inv_init: "assign_inv ({}, {}, Map.empty)"
  by (simp add: assign_inv_def)

lemma shipment_of_ids:
  assumes "shipment_of os (s, r, e, items)"
  shows "email_id ` set items = {e}"
proof -
  from assms have eq: "items = orders_by_email os e" and ne: "items \<noteq> []"
    unfolding shipment_of_iff by blast+
  from eq have all: "\<forall>x \<in> set items. email_id x = e"
    by (simp add: orders_by_email_def)
  from ne obtain x where "x \<in> set items" by (cases items) auto
  with all show ?thesis by force
qed

lemma set_sort_by_score_desc [simp]: "set (sort_by_score_desc cs) = set cs"
  by (simp add: sort_by_score_desc_def)

lemma match_all_assigned:
  assumes "match_all_transactions_optimally sp pf ts os r = Some (Some items, s, st)"
  shows "\<exists>e. (s, r, e, items) \<in> set (score_all_matches sp pf ts os)
           \<and> CONFIDENCE_THRESHOLD_LOW \<le> s \<and> st = status_of s"
proof -
  let ?mr = "snd (snd (assign_greedy
       (sort_by_score_desc (score_all_matches sp pf ts os)) ({}, {}, Map.empty)))"
  from assms have "?mr r = Some (Some items, s, st)"
    by (simp add: match_all_unfold mark_unmatched_apply split: if_splits)
  from assign_greedy_from [OF this] show ?thesis by auto
qed

lemma match_all_dom:
  "dom (match_all_transactions_optimally sp pf ts os) = row_number ` set ts"
proof -
  let ?mr = "snd (snd (assign_greedy
       (sort_by_score_desc (score_all_matches sp pf ts os)) ({}, {}, Map.empty)))"
  have rows: "r \<in> row_number ` set ts" if "?mr r = Some res" for r res
  proof -
    from assign_greedy_from [OF that] obtain score eid items where
      "(score, r, eid, items) \<in> set (score_all_matches sp pf ts os)" by auto
    from score_all_matches_ok [OF this] show ?thesis by simp
  qed
  show ?thesis
  proof (rule set_eqI)
    fix r
    show "r \<in> dom (match_all_transactions_optimally sp pf ts os) \<longleftrightarrow> r \<in> row_number ` set ts"
    proof (cases "?mr r")
      case None
      then show ?thesis by (simp add: match_all_unfold mark_unmatched_apply domIff)
    next
      case (Some res)
      with rows [OF Some] show ?thesis
        by (simp add: match_all_unfold mark_unmatched_apply domIff)
    qed
  qed
qed

lemma match_all_inv:
  "assign_inv (assign_greedy
       (sort_by_score_desc (score_all_matches sp pf ts os)) ({}, {}, Map.empty))"
proof (rule assign_greedy_inv [OF assign_inv_init], rule ballI)
  fix c assume "c \<in> set (sort_by_score_desc (score_all_matches sp pf ts os))"
  then have "shipment_of os c" using score_all_matches_ok by simp
  then show "email_id ` set (snd (snd (snd c))) \<subseteq> {fst (snd (snd c))}"
    using shipment_of_ids [of os "fst c" "fst (snd c)" "fst (snd (snd c))" "snd (snd (snd c))"]
    by simp
qed

lemma match_all_disjoint:
  assumes "r1 \<noteq> r2"
    and "match_all_transactions_optimally sp pf ts os r1 = Some (Some items1, s1, st1)"
    and "match_all_transactions_optimally sp pf ts os r2 = Some (Some items2, s2, st2)"
  shows "email_id ` set items1 \<inter> email_id ` set items2 = {}"
proof -
  obtain ue ut mr where st: "assign_greedy
       (sort_by_score_desc (score_all_matches sp pf ts os)) ({}, {}, Map.empty) = (ue, ut, mr)"
    by (cases "assign_greedy
       (sort_by_score_desc (score_all_matches sp pf ts os)) ({}, {}, Map.empty)") auto
  from assms(2,3) have m: "mr r1 = Some (Some items1, s1, st1)"
    "mr r2 = Some (Some items2, s2, st2)"
    by (simp_all add: match_all_unfold st mark_unmatched_apply split: if_splits)
  from match_all_inv [of sp pf ts os] have
    "\<forall>r1 r2 res1 res2. r1 \<noteq> r2 \<and> mr r1 = Some res1 \<and> mr r2 = Some res2
              \<longrightarrow> result_emails res1 \<inter> result_emails res2 = {}"
    unfolding st assign_inv_def by simp
  with assms(1) m have "result_emails (Some items1, s1, st1) \<inter> result_emails (Some items2, s2, st2) = {}"
    by blast
  then show ?thesis by (simp add: result_emails_def)
qed

text \<open>
  Claim C2. For any list of transactions and any list of parsed orders, the dictionary
  returned by \<open>match_all_transactions_optimally\<close> has exactly one result under the row
  number of every input transaction (its keys are exactly these row numbers); every
  result with items holds one whole shipment, the records of one email id; and the
  items of the results of two different rows share no email id, so no shipment is
  assigned to more than one transaction's result.
\<close>

theorem C2_unique_assignment:
  "(\<forall>t \<in> set ts. \<exists>!res. match_all_transactions_optimally sp pf ts os (row_number t) = Some res)
   \<and> dom (match_all_transactions_optimally sp pf ts os) = row_number ` set ts
   \<and> (\<forall>r items s st.
        match_all_transactions_optimally sp pf ts os r = Some (Some items, s, st) \<longrightarrow>
        (\<exists>e. items = orders_by_email os e \<and> items \<noteq> [] \<and> email_id ` set items = {e}))
   \<and> (\<forall>r1 r2 items1 s1 st1 items2 s2 st2.
        r1 \<noteq> r2
        \<and> match_all_transactions_optimally sp pf ts os r1 = Some (Some items1, s1, st1)
        \<and> match_all_transactions_optimally sp pf ts os r2 = Some (Some items2, s2, st2) \<longrightarrow>
        email_id ` set items1 \<inter> email_id ` set items2 = {})"
proof (intro conjI allI impI ballI)
  fix t assume "t \<in> set ts"
  then have "row_number t \<in> dom (match_all_transactions_optimally sp pf ts os)"
    by (simp add: match_all_dom)
  then show "\<exists>!res. match_all_transactions_optimally sp pf ts os (row_number t) = Some res"
    by auto
next
  show "dom (match_all_transactions_optimally sp pf ts os) = row_number ` set ts"
    by (rule match_all_dom)
next
  fix r items s st
  assume "match_all_transactions_optimally sp pf ts os r = Some (Some items, s, st)"
  from match_all_assigned [OF this] obtain e where
    "(s, r, e, items) \<in> set (score_all_matches sp pf ts os)" by blast
  then have so: "shipment_of os (s, r, e, items)" using score_all_matches_ok by blast
  then have "items = orders_by_email os e \<and> items \<noteq> []"
    unfolding shipment_of_iff by blast
  with shipment_of_ids [OF so]
  show "\<exists>e. items = orders_by_email os e \<and> items \<noteq> [] \<and> email_id ` set items = {e}"
    by blast
next
  fix r1 r2 items1 s1 st1 items2 s2 st2
  assume "r1 \<noteq> r2
        \<and> match_all_transactions_optimally sp pf ts os r1 = Some (Some items1, s1, st1)
        \<and> match_all_transactions_optimally sp pf ts os r2 = Some (Some items2, s2, st2)"
  then show "email_id ` set items1 \<inter> email_id ` set items2 = {}"
    using match_all_disjoint by blast
qed

lemma py_strip_samples:
  "py_strip ''2024-03-10'' = ''2024-03-10''" "py_strip ''soon'' = ''soon''"
  "py_strip ''-41.03'' = ''-41.03''" "py_strip ''($41.03)'' = ''($41.03)''"
  "py_strip ''-20.00'' = ''-20.00''" "py_strip ''-10.00'' = ''-10.00''"
  "py_strip ''41.03'' = ''41.03''" "py_strip ''20.00'' = ''20.00''" "py_strip ''10.00'' = ''10.00''"
  by (simp_all add: py_strip_def py_isspace_def)

lemma sample_parse_date:
  "parse_date sample_strptime ''2024-03-10'' = Some 738955"
  "parse_date sample_strptime ''soon'' = None"
  by (simp_all add: parse_date_def parse_date_formats_def sample_strptime_def py_strip_samples)

lemma sample_parse_amount:
  "parse_amount sample_float (Some ''-41.03'') = - 41.03"
  "parse_amount sample_float (Some ''($41.03)'') = - 41.03"
  "parse_amount sample_float (Some ''-20.00'') = - 20"
  "parse_amount sample_float (Some ''-10.00'') = - 10"
  by (simp_all add: parse_amount_def amount_sign_and_digits_def sample_float_def py_strip_samples py_remove_def Let_def
      suffix_def)

lemma sample_all_matches:
  "score_all_matches sample_strptime sample_float sample_transactions sample_orders =
     [(64, 2, ''e1'', [mk_order ''e1'' ''shipment'' 41.03 (Some 738953) ''USB cable'',
                      mk_order ''e1'' ''shipment'' 41.03 (Some 738953) ''Batteries'']),
      (50, 2, ''e3'', [mk_order ''e3'' ''shipment'' 42.50 (Some 738955) ''Notebook'']),
      (64, 3, ''e1'', [mk_order ''e1'' ''shipment'' 41.03 (Some 738953) ''USB cable'',
                      mk_order ''e1'' ''shipment'' 41.03 (Some 738953) ''Batteries'']),
      (50, 3, ''e3'', [mk_order ''e3'' ''shipment'' 42.50 (Some 738955) ''Notebook'']),
      (25, 5, ''e4'', [mk_order ''e4'' ''shipment'' 12.50 (Some 738950) ''Pens''])]"
  by (simp add: score_all_matches_def trans_candidates_def sample_transactions_def
      sample_orders_def mk_txn_def mk_order_def sample_parse_date sample_parse_amount
      emails_by_type_def orders_by_email_def Let_def calculate_confidence_score_def
      DATE_MATCHING_WINDOW_DAYS_def AMOUNT_MATCHING_TOLERANCE_def)

lemma sample_sorted:
  "sort_by_score_desc (score_all_matches sample_strptime sample_float sample_transactions sample_orders) =
     [(64, 2, ''e1'', [mk_order ''e1'' ''shipment'' 41.03 (Some 738953) ''USB cable'',
                      mk_order ''e1'' ''shipment'' 41.03 (Some 738953) ''Batteries'']),
      (64, 3, ''e1'', [mk_order ''e1'' ''shipment'' 41.03 (Some 738953) ''USB cable'',
                      mk_order ''e1'' ''shipment'' 41.03 (Some 738953) ''Batteries'']),
      (50, 2, ''e3'', [mk_order ''e3'' ''shipment'' 42.50 (Some 738955) ''Notebook'']),
      (50, 3, ''e3'', [mk_order ''e3'' ''shipment'' 42.50 (Some 738955) ''Notebook'']),
      (25, 5, ''e4'', [mk_order ''e4'' ''shipment'' 12.50 (Some 738950) ''Pens''])]"
  by (simp add: sample_all_matches sort_by_score_desc_def)

lemma sample_rows: "row_number ` set sample_transactions = {2, 3, 4, 5}"
  by (auto simp: sample_transactions_def mk_txn_def)

lemma sample_results:
  "match_all_transactions_optimally sample_strptime sample_float sample_transactions sample_orders 2
     = Some (Some [mk_order ''e1'' ''shipment'' 41.03 (Some 738953) ''USB cable'',
                   mk_order ''e1'' ''shipment'' 41.03 (Some 738953) ''Batteries''], 64, ''matched'')"
  "match_all_transactions_optimally sample_strptime sample_float sample_transactions sample_orders 3
     = Some (Some [mk_order ''e3'' ''shipment'' 42.50 (Some 738955) ''Notebook''], 50, ''low_confidence'')"
  "match_all_transactions_optimally sample_strptime sample_float sample_transactions sample_orders 4
     = Some (None, 0, ''unmatched'')"
  "match_all_transactions_optimally sample_strptime sample_float sample_transactions sample_orders 5
     = Some (None, 0, ''unmatched'')"
  by (simp_all add: match_all_unfold sample_sorted mark_unmatched_apply sample_rows
      assign_greedy.simps CONFIDENCE_THRESHOLD_HIGH_def CONFIDENCE_THRESHOLD_LOW_def)

theorem C2_unique_assignment_witness:
  "match_all_transactions_optimally sample_strptime sample_float sample_transactions sample_orders 2
     = Some (Some [mk_order ''e1'' ''shipment'' 41.03 (Some 738953) ''USB cable'',
                   mk_order ''e1'' ''shipment'' 41.03 (Some 738953) ''Batteries''], 64, ''matched'')
   \<and> match_all_transactions_optimally sample_strptime sample_float sample_transactions sample_orders 3
     = Some (Some [mk_order ''e3'' ''shipment'' 42.50 (Some 738955) ''Notebook''], 50, ''low_confidence'')
   \<and> (2::int) \<noteq> 3
   \<and> email_id ` set [mk_order ''e1'' ''shipment'' 41.03 (Some 738953) ''USB cable'',
                      mk_order ''e1'' ''shipment'' 41.03 (Some 738953) ''Batteries'']
     \<inter> email_id ` set [mk_order ''e3'' ''shipment'' 42.50 (Some 738955) ''Notebook''] = {}
   \<and> dom (match_all_transactions_optimally sample_strptime sample_float sample_transactions
          sample_orders) = {2, 3, 4, 5}"
  using C2_unique_assignment [of sample_transactions sample_strptime sample_float sample_orders]
    sample_results sample_rows
  by (simp add: mk_order_def)

lemma status_of_matched: "status_of s = ''matched'' \<longleftrightarrow> 60 \<le> s"
  by (simp add: status_of_def CONFIDENCE_THRESHOLD_HIGH_def)

lemma status_of_low: "40 \<le> s \<Longrightarrow> status_of s = ''low_confidence'' \<longleftrightarrow> s \<le> 59"
  by (auto simp: status_of_def CONFIDENCE_THRESHOLD_HIGH_def)

lemma match_all_no_candidate:
  assumes "r \<in> row_number ` set ts"
    and "\<forall>c \<in> set (score_all_matches sp pf ts os). fst (snd c) = r \<longrightarrow> fst c < CONFIDENCE_THRESHOLD_LOW"
  shows "match_all_transactions_optimally sp pf ts os r = Some (None, 0, ''unmatched'')"
proof -
  let ?mr = "snd (snd (assign_greedy
       (sort_by_score_desc (score_all_matches sp pf ts os)) ({}, {}, Map.empty)))"
  have "?mr r = None"
  proof (cases "?mr r")
    case None
    then show ?thesis .
  next
    case (Some res)
    from assign_greedy_from [OF Some] obtain score eid items where
      "(score, r, eid, items) \<in> set (score_all_matches sp pf ts os)"
      "CONFIDENCE_THRESHOLD_LOW \<le> score" by auto
    with assms(2) show ?thesis by fastforce
  qed
  with assms(1) show ?thesis
    by (simp add: match_all_unfold mark_unmatched_apply)
qed

lemma match_all_none:
  assumes "match_all_transactions_optimally sp pf ts os r = Some (None, s, st)"
  shows "s = 0 \<and> st = ''unmatched''"
proof -
  let ?mr = "snd (snd (assign_greedy
       (sort_by_score_desc (score_all_matches sp pf ts os)) ({}, {}, Map.empty)))"
  show ?thesis
  proof (cases "?mr r")
    case None
    with assms show ?thesis
      by (simp add: match_all_unfold mark_unmatched_apply split: if_splits)
  next
    case (Some res)
    with assms have "?mr r = Some (None, s, st)"
      by (simp add: match_all_unfold mark_unmatched_apply split: if_splits)
    from assign_greedy_from [OF this] show ?thesis by simp
  qed
qed

text \<open>
  Claim C3. A result with items comes from a candidate of that row with a score of at
  least 40; its status is \<open>matched\<close> exactly when the score is at least 60 and
  \<open>low_confidence\<close> exactly when the score is between 40 and 59. A result without
  items is \<open>(None, 0, unmatched)\<close>. A row all of whose candidates score 39 or less
  gets that result, whatever else is available: it claims no shipment.
\<close>

theorem C3_thresholds:
  "(\<forall>r items s st.
      match_all_transactions_optimally sp pf ts os r = Some (Some items, s, st) \<longrightarrow>
        (\<exists>e. (s, r, e, items) \<in> set (score_all_matches sp pf ts os))
        \<and> 40 \<le> s
        \<and> (st = ''matched'' \<longleftrightarrow> 60 \<le> s)
        \<and> (st = ''low_confidence'' \<longleftrightarrow> 40 \<le> s \<and> s \<le> 59))
   \<and> (\<forall>r s st.
      match_all_transactions_optimally sp pf ts os r = Some (None, s, st) \<longrightarrow>
        s = 0 \<and> st = ''unmatched'')
   \<and> (\<forall>r. r \<in> row_number ` set ts
          \<and> (\<forall>c \<in> set (score_all_matches sp pf ts os). fst (snd c) = r \<longrightarrow> fst c \<le> 39) \<longrightarrow>
        match_all_transactions_optimally sp pf ts os r = Some (None, 0, ''unmatched''))"
proof (intro conjI allI impI)
  fix r items s st
  assume a: "match_all_transactions_optimally sp pf ts os r = Some (Some items, s, st)"
  from match_all_assigned [OF a] obtain e where
    e: "(s, r, e, items) \<in> set (score_all_matches sp pf ts os)"
    and s: "CONFIDENCE_THRESHOLD_LOW \<le> s" and st: "st = status_of s" by blast
  from e show "\<exists>e. (s, r, e, items) \<in> set (score_all_matches sp pf ts os)" by blast
  from s show s40: "40 \<le> s" by (simp add: CONFIDENCE_THRESHOLD_LOW_def)
  show "st = ''matched'' \<longleftrightarrow> 60 \<le> s" by (simp add: st status_of_matched)
  from s40 show "st = ''low_confidence'' \<longleftrightarrow> 40 \<le> s \<and> s \<le> 59"
    by (simp add: st status_of_low)
next
  fix r s st
  assume "match_all_transactions_optimally sp pf ts os r = Some (None, s, st)"
  from match_all_none [OF this] show "s = 0" "st = ''unmatched''" by simp_all
next
  fix r
  assume a: "r \<in> row_number ` set ts
          \<and> (\<forall>c \<in> set (score_all_matches sp pf ts os). fst (snd c) = r \<longrightarrow> fst c \<le> 39)"
  then have "\<forall>c \<in> set (score_all_matches sp pf ts os).
      fst (snd c) = r \<longrightarrow> fst c < CONFIDENCE_THRESHOLD_LOW"
    by (auto simp: CONFIDENCE_THRESHOLD_LOW_def)
  with a show "match_all_transactions_optimally sp pf ts os r = Some (None, 0, ''unmatched'')"
    using match_all_no_candidate by blast
qed

theorem C3_thresholds_witness:
  "match_all_transactions_optimally sample_strptime sample_float sample_transactions sample_orders 2
     = Some (Some [mk_order ''e1'' ''shipment'' 41.03 (Some 738953) ''USB cable'',
                   mk_order ''e1'' ''shipment'' 41.03 (Some 738953) ''Batteries''], 64, ''matched'')
   \<and> (60::int) \<le> 64
   \<and> match_all_transactions_optimally sample_strptime sample_float sample_transactions sample_orders 3
     = Some (Some [mk_order ''e3'' ''shipment'' 42.50 (Some 738955) ''Notebook''], 50, ''low_confidence'')
   \<and> (40::int) \<le> 50 \<and> (50::int) \<le> 59
   \<and> (5::int) \<in> row_number ` set sample_transactions
   \<and> filter (\<lambda>c. fst (snd c) = 5)
        (score_all_matches sample_strptime sample_float sample_transactions sample_orders)
      = [(25, 5, ''e4'', [mk_order ''e4'' ''shipment'' 12.50 (Some 738950) ''Pens''])]
   \<and> (25::int) \<le> 39
   \<and> match_all_transactions_optimally sample_strptime sample_float sample_transactions sample_orders 5
     = Some (None, 0, ''unmatched'')"
proof -
  have r5: "(5::int) \<in> row_number ` set sample_transactions
    \<and> (\<forall>c \<in> set (score_all_matches sample_strptime sample_float sample_transactions sample_orders).
         fst (snd c) = 5 \<longrightarrow> fst c \<le> 39)"
    by (simp add: sample_all_matches sample_rows)
  have "match_all_transactions_optimally sample_strptime sample_float sample_transactions
      sample_orders 5 = Some (None, 0, ''unmatched'')"
    using C3_thresholds [of sample_strptime sample_float sample_transactions sample_orders,
        THEN conjunct2, THEN conjunct2, rule_format, OF r5] .
  moreover have "filter (\<lambda>c. fst (snd c) = 5)
        (score_all_matches sample_strptime sample_float sample_transactions sample_orders)
      = [(25, 5, ''e4'', [mk_order ''e4'' ''shipment'' 12.50 (Some 738950) ''Pens''])]"
    by (simp add: sample_all_matches)
  ultimately show ?thesis using r5 sample_results(1,2) by simp
qed

lemma trans_candidates_unparseable:
  "parse_date sp (Date t) = None \<or> parse_amount pf (Some (Amount t)) = 0 \<Longrightarrow>
   trans_candidates sp pf os t = []"
  by (auto simp: trans_candidates_def Let_def split: option.splits)

lemma try_formats_None:
  "(\<forall>fmt \<in> set fmts. sp s fmt = None) \<Longrightarrow> try_formats sp s fmts = None"
  by (induction fmts) simp_all

lemma parse_date_None:
  "(\<forall>fmt \<in> set parse_date_formats. sp (py_strip s) fmt = None) \<Longrightarrow> parse_date sp s = None"
  by (simp add: parse_date_def try_formats_None)

lemma parse_amount_unparseable:
  "pf (snd (amount_sign_and_digits v)) = None \<Longrightarrow> parse_amount pf (Some v) = 0"
  by (auto simp: parse_amount_def split: prod.splits)

text \<open>
  Claim C6. A transaction whose date does not parse or whose amount parses to zero
  appends no candidate in phase 1. Results are keyed by row number: when every
  transaction carrying the row number \<open>r\<close> is of that kind (with the distinct row numbers
  of a loaded ledger: when the transaction of row \<open>r\<close> is), no candidate has row \<open>r\<close>
  and the result of \<open>r\<close> is \<open>(None, 0, unmatched)\<close>. The parsers absorb what they cannot
  read: \<open>parse_date\<close> returns \<open>None\<close> when every format raises and on the empty string,
  \<open>parse_amount\<close> returns 0 when \<open>float\<close> raises on the prepared string and on \<open>None\<close>;
  both are total functions into values, with no exceptional result.
\<close>

theorem C6_unparseable_unmatched:
  "(parse_date sp (Date t) = None \<or> parse_amount pf (Some (Amount t)) = 0 \<longrightarrow>
      trans_candidates sp pf os t = [])
   \<and> (r \<in> row_number ` set ts
       \<and> (\<forall>t \<in> set ts. row_number t = r \<longrightarrow>
             parse_date sp (Date t) = None \<or> parse_amount pf (Some (Amount t)) = 0) \<longrightarrow>
      (\<forall>c \<in> set (score_all_matches sp pf ts os). fst (snd c) \<noteq> r)
      \<and> match_all_transactions_optimally sp pf ts os r = Some (None, 0, ''unmatched''))
   \<and> ((\<forall>fmt \<in> set parse_date_formats. sp (py_strip s) fmt = None) \<longrightarrow>
      parse_date sp s = None)
   \<and> parse_date sp [] = None
   \<and> (pf (snd (amount_sign_and_digits v)) = None \<longrightarrow> parse_amount pf (Some v) = 0)
   \<and> parse_amount pf None = 0"
proof (intro conjI impI)
  assume "parse_date sp (Date t) = None \<or> parse_amount pf (Some (Amount t)) = 0"
  then show "trans_candidates sp pf os t = []" by (rule trans_candidates_unparseable)
next
  assume a: "r \<in> row_number ` set ts
       \<and> (\<forall>t \<in> set ts. row_number t = r \<longrightarrow>
             parse_date sp (Date t) = None \<or> parse_amount pf (Some (Amount t)) = 0)"
  show none: "\<forall>c \<in> set (score_all_matches sp pf ts os). fst (snd c) \<noteq> r"
  proof
    fix c assume "c \<in> set (score_all_matches sp pf ts os)"
    then obtain t where t: "t \<in> set ts" "c \<in> set (trans_candidates sp pf os t)"
      by (auto simp: score_all_matches_def)
    show "fst (snd c) \<noteq> r"
    proof
      assume "fst (snd c) = r"
      with trans_candidates_ok [OF t(2)] have "row_number t = r" by simp
      with a t(1) have "trans_candidates sp pf os t = []"
        using trans_candidates_unparseable by blast
      with t(2) show False by simp
    qed
  qed
  then show "match_all_transactions_optimally sp pf ts os r = Some (None, 0, ''unmatched'')"
    using a match_all_no_candidate [of r ts sp pf os] by blast
next
  assume "\<forall>fmt \<in> set parse_date_formats. sp (py_strip s) fmt = None"
  then show "parse_date sp s = None" by (rule parse_date_None)
next
  show "parse_date sp [] = None" by (simp add: parse_date_def)
next
  assume "pf (snd (amount_sign_and_digits v)) = None"
  then show "parse_amount pf (Some v) = 0" by (rule parse_amount_unparseable)
next
  show "parse_amount pf None = 0" by (simp add: parse_amount_def)
qed

theorem C6_unparseable_unmatched_witness:
  "parse_date sample_strptime (Date (mk_txn 4 ''soon'' ''AMAZON MKTPL*EF56'' ''-20.00'')) = None
   \<and> trans_candidates sample_strptime sample_float sample_orders
        (mk_txn 4 ''soon'' ''AMAZON MKTPL*EF56'' ''-20.00'') = []
   \<and> (4::int) \<in> row_number ` set sample_transactions
   \<and> match_all_transactions_optimally sample_strptime sample_float sample_transactions
        sample_orders 4 = Some (None, 0, ''unmatched'')
   \<and> map (sample_strptime (py_strip ''soon'')) parse_date_formats = [None, None, None, None, None]
   \<and> parse_date sample_strptime ''soon'' = None
   \<and> sample_float (snd (amount_sign_and_digits ''n/a'')) = None
   \<and> parse_amount sample_float (Some ''n/a'') = 0"
proof -
  note inst = C6_unparseable_unmatched [where sp = sample_strptime and pf = sample_float
      and t = "mk_txn 4 ''soon'' ''AMAZON MKTPL*EF56'' ''-20.00''" and os = sample_orders
      and r = 4 and ts = sample_transactions and s = "''soon''" and v = "''n/a''"]
  have bad: "parse_date sample_strptime (Date (mk_txn 4 ''soon'' ''AMAZON MKTPL*EF56'' ''-20.00''))
      = None"
    by (simp add: mk_txn_def sample_parse_date)
  have rows: "(4::int) \<in> row_number ` set sample_transactions
      \<and> (\<forall>t \<in> set sample_transactions. row_number t = 4 \<longrightarrow>
            parse_date sample_strptime (Date t) = None
            \<or> parse_amount sample_float (Some (Amount t)) = 0)"
    by (simp add: sample_transactions_def mk_txn_def sample_parse_date)
  have fmts: "\<forall>fmt \<in> set parse_date_formats. sample_strptime (py_strip ''soon'') fmt = None"
    by (simp add: parse_date_formats_def sample_strptime_def py_strip_samples)
  have fl: "sample_float (snd (amount_sign_and_digits ''n/a'')) = None"
    by (simp add: amount_sign_and_digits_def sample_float_def py_strip_def py_isspace_def
        py_remove_def Let_def)
  have "map (sample_strptime (py_strip ''soon'')) parse_date_formats
      = [None, None, None, None, None]"
    by (simp add: parse_date_formats_def sample_strptime_def py_strip_samples)
  with inst bad rows fmts fl show ?thesis by blast
qed

section \<open>Processing order of the candidates\<close>









section \<open>Shipments without a total\<close>













section \<open>Known patterns in the output\<close>










section \<open>Deduplication\<close>

lemma map_of_group_append:
  "map_of (group_append k v g) =
     (map_of g)(k \<mapsto> (case map_of g k of None \<Rightarrow> [v] | Some vs \<Rightarrow> vs @ [v]))"
  by (induction k v g rule: group_append.induct) (auto simp: fun_upd_twist)

lemma keys_group_append:
  "map fst (group_append k v g) = (if k \<in> fst ` set g then map fst g else map fst g @ [k])"
  by (induction k v g rule: group_append.induct) auto

lemma distinct_group_append:
  "distinct (map fst g) \<Longrightarrow> distinct (map fst (group_append k v g))"
  by (simp add: keys_group_append)

lemma group_by_key_snoc:
  "group_by_key key (xs @ [x]) = group_append (key x) x (group_by_key key xs)"
  by (simp add: group_by_key_def)

lemma distinct_group_by_key: "distinct (map fst (group_by_key key xs))"
proof (induction xs rule: rev_induct)
  case Nil
  then show ?case by (simp add: group_by_key_def)
next
  case (snoc x xs)
  then show ?case by (simp only: group_by_key_snoc distinct_group_append)
qed

lemma map_of_group_by_key:
  "map_of (group_by_key key xs) k =
     (if k \<in> key ` set xs then Some (filter (\<lambda>x. key x = k) xs) else None)"
proof (induction xs rule: rev_induct)
  case Nil
  then show ?case by (simp add: group_by_key_def)
next
  case (snoc x xs)
  show ?case
  proof (cases "key x = k")
    case True
    show ?thesis
    proof (cases "k \<in> key ` set xs")
      case in_keys: True
      with snoc True show ?thesis
        by (simp add: group_by_key_snoc map_of_group_append)
    next
      case not_in: False
      then have "filter (\<lambda>x. key x = k) xs = []"
        by (auto simp: filter_empty_conv)
      with snoc True not_in show ?thesis
        by (simp add: group_by_key_snoc map_of_group_append)
    qed
  next
    case False
    with snoc show ?thesis
      by (auto simp: group_by_key_snoc map_of_group_append)
  qed
qed

lemma group_by_key_member:
  "(k, vs) \<in> set (group_by_key key xs) \<longleftrightarrow>
     k \<in> key ` set xs \<and> vs = filter (\<lambda>x. key x = k) xs"
proof -
  have "(k, vs) \<in> set (group_by_key key xs) \<longleftrightarrow> map_of (group_by_key key xs) k = Some vs"
    using distinct_group_by_key [of key xs] by simp
  then show ?thesis by (auto simp: map_of_group_by_key)
qed

lemma keys_group_by_key: "fst ` set (group_by_key key xs) = key ` set xs"
proof (rule set_eqI)
  fix k
  have "k \<in> fst ` set (group_by_key key xs) \<longleftrightarrow> (\<exists>vs. (k, vs) \<in> set (group_by_key key xs))"
    by force
  then show "k \<in> fst ` set (group_by_key key xs) \<longleftrightarrow> k \<in> key ` set xs"
    by (simp add: group_by_key_member)
qed




















end
